theory Spec2Isabelle
  imports Main "HOL-Library.AList"
begin

section \<open>Characters and strings\<close>

text \<open>
  A Python \<^verbatim>\<open>str\<close> is modelled as a \<^typ>\<open>string\<close>: the strings considered are those of
  code points below 256 (Latin-1). The character classes below are those of Python 3 on
  these code points: \<^verbatim>\<open>str.isspace\<close> (which \<^verbatim>\<open>str.strip\<close> and the class \<^verbatim>\<open>\s\<close> of \<^verbatim>\<open>re\<close>
  follow), the decimal digits (\<^verbatim>\<open>\d\<close>), \<^verbatim>\<open>str.isalnum\<close> (which with the underscore makes
  \<^verbatim>\<open>\w\<close>: the patterns of the source are \<^verbatim>\<open>str\<close> patterns compiled without \<^verbatim>\<open>re.ASCII\<close>), and
  the upper-case letters, which are the characters that \<^verbatim>\<open>str.lower\<close> changes, each to the
  code point 32 above it.
\<close>

definition ord :: "char \<Rightarrow> nat" where
  "ord c = of_char c"

definition bslash :: char where
  "bslash = CHR 0x5C"

definition newline :: char where
  "newline = CHR 0x0A"

definition apostrophe :: char where
  "apostrophe = CHR 0x27"

definition is_space :: "char \<Rightarrow> bool" where
  "is_space c =
     ((9 \<le> ord c \<and> ord c \<le> 13) \<or> (28 \<le> ord c \<and> ord c \<le> 32) \<or> ord c = 133 \<or> ord c = 160)"

definition is_digit :: "char \<Rightarrow> bool" where
  "is_digit c = (48 \<le> ord c \<and> ord c \<le> 57)"

definition is_upper :: "char \<Rightarrow> bool" where
  "is_upper c =
     ((65 \<le> ord c \<and> ord c \<le> 90) \<or> (192 \<le> ord c \<and> ord c \<le> 214) \<or>
      (216 \<le> ord c \<and> ord c \<le> 222))"

definition is_alnum :: "char \<Rightarrow> bool" where
  "is_alnum c =
     ((48 \<le> ord c \<and> ord c \<le> 57) \<or> (65 \<le> ord c \<and> ord c \<le> 90) \<or>
      (97 \<le> ord c \<and> ord c \<le> 122) \<or> ord c = 170 \<or> (178 \<le> ord c \<and> ord c \<le> 179) \<or>
      ord c = 181 \<or> (185 \<le> ord c \<and> ord c \<le> 186) \<or> (188 \<le> ord c \<and> ord c \<le> 190) \<or>
      (192 \<le> ord c \<and> ord c \<le> 214) \<or> (216 \<le> ord c \<and> ord c \<le> 246) \<or>
      (248 \<le> ord c \<and> ord c \<le> 255))"

definition is_word :: "char \<Rightarrow> bool" where
  "is_word c = (is_alnum c \<or> c = CHR ''_'')"

definition lower_char :: "char \<Rightarrow> char" where
  "lower_char c = (if is_upper c then char_of (ord c + 32) else c)"

text \<open>\<^verbatim>\<open>s.lower()\<close> and \<^verbatim>\<open>s.strip()\<close>.\<close>

definition str_lower :: "string \<Rightarrow> string" where
  "str_lower s = map lower_char s"

definition str_strip :: "string \<Rightarrow> string" where
  "str_strip s = rev (dropWhile is_space (rev (dropWhile is_space s)))"

text \<open>
  \<^verbatim>\<open>re.sub(pattern, r, s)\<close> for a pattern \<^verbatim>\<open>[class]{m,}\<close> (with \<open>m \<ge> 1\<close>): scanning from
  the left, a run of at least \<open>m\<close> characters of the class is matched greedily, so whole,
  and replaced by \<open>r\<close>; any other character is copied.
\<close>

function re_sub_runs :: "nat \<Rightarrow> (char \<Rightarrow> bool) \<Rightarrow> string \<Rightarrow> string \<Rightarrow> string" where
  "re_sub_runs m P r [] = []"
| "re_sub_runs m P r (c # cs) =
     (if P c \<and> m \<le> Suc (length (takeWhile P cs))
      then r @ re_sub_runs m P r (dropWhile P cs)
      else c # re_sub_runs m P r cs)"
  by pat_completeness auto
termination
  by (relation "measure (\<lambda>(m, P, r, s). length s)")
     (simp_all add: length_dropWhile_le le_imp_less_Suc)

section \<open>epm/field\_descriptor.py: identifier derivation\<close>

text \<open>
  \<^verbatim>\<open>spaces_pattern = \s+\<close>, \<^verbatim>\<open>not_python_var_pattern = (^[^\w]+)|([^\w\d]+)\<close> and
  \<^verbatim>\<open>multiple_underscores_pattern = [_]{2,}\<close>. Both alternatives of the second pattern match
  a maximal run of characters outside \<^verbatim>\<open>\w\<close> (a digit is a word character), the first
  one at the start of the string only.
\<close>

definition not_word :: "char \<Rightarrow> bool" where
  "not_word c = (\<not> is_word c)"

definition is_underscore :: "char \<Rightarrow> bool" where
  "is_underscore c = (c = CHR ''_'')"

text \<open>The separator characters: those outside \<^verbatim>\<open>\w\<close>, and the underscore.\<close>

definition is_sep :: "char \<Rightarrow> bool" where
  "is_sep c = (\<not> is_word c \<or> c = CHR ''_'')"

definition var_name_to_ref :: "string \<Rightarrow> string" where
  "var_name_to_ref name =
     (let ref = re_sub_runs 1 not_word ''_'' (str_lower name)
      in re_sub_runs 2 is_underscore ''_'' ref)"


section \<open>epm/util.py\<close>

text \<open>\<^verbatim>\<open>table_name_to_ref(name) = name.replace(":", "_")\<close>.\<close>

definition table_name_to_ref :: "string \<Rightarrow> string" where
  "table_name_to_ref name = map (\<lambda>c. if c = CHR '':'' then CHR ''_'' else c) name"

section \<open>Python values, builtins and exceptions\<close>

text \<open>
  The values \<^verbatim>\<open>deserialize\<close> receives and returns: \<^verbatim>\<open>None\<close>, a \<^verbatim>\<open>str\<close>, an \<^verbatim>\<open>int\<close>, a
  \<^verbatim>\<open>float\<close>, and the two carriers \<^verbatim>\<open>RecordHook(references, value)\<close> and
  \<^verbatim>\<open>Link(reference, value)\<close>, whose classes only store their arguments. The type \<open>'f\<close>
  stands for the floating-point numbers, which are not modelled: the conversions of the
  builtins \<^verbatim>\<open>float\<close> and \<^verbatim>\<open>int\<close> that involve them are parameters (\<open>float_ops\<close>), returning
  \<open>None\<close> where the builtin raises.
\<close>

datatype 'f pyvalue =
    PNone
  | PStr string
  | PInt int
  | PFloat 'f
  | PRecordHook "string list" "'f pyvalue"
  | PLink string "'f pyvalue"

record 'f float_ops =
  float_of_str :: "string \<Rightarrow> 'f option"
  float_of_int :: "int \<Rightarrow> 'f option"
  int_of_float :: "'f \<Rightarrow> int option"

text \<open>
  The builtin exceptions the code raises, and \<^verbatim>\<open>FieldValidationError\<close>, the exception class
  of the repository, with its messages in the order of the source. The location text built
  by \<^verbatim>\<open>get_error_location_message\<close> is kept as its four components: table name, index,
  ref and the value (when one is given). \<open>raised\<close> is what \<^verbatim>\<open>deserialize\<close> can raise.
\<close>

datatype error =
    ValueError string
  | IndexError
  | KeyError string
  | RuntimeError string
  | AssertionError string
  | AttributeError string

datatype validation_message =
    MoreThan100Characters
  | CouldntParseToInteger
  | CouldntParseToFloat
  | ValueMustBeAString
  | FieldIsRequired

type_synonym 'v error_location = "string \<times> int \<times> string option \<times> 'v option"

datatype 'v raised =
    FieldValidationError validation_message "'v error_location"
  | Builtin error





text \<open>
  \<^verbatim>\<open>int(s)\<close> for a \<^verbatim>\<open>str\<close>, base 10: surrounding whitespace is stripped (the builtin
  strips the code points 9 to 13, 32, 133 and 160, not 28 to 31), one sign is allowed, then
  come decimal digits, where single underscores may stand between two digits. \<open>None\<close> is
  the \<^verbatim>\<open>ValueError\<close> of the builtin. (The builtin also refuses a text of more than 4300
  digits; \<^verbatim>\<open>deserialize\<close> hands it texts of fewer than 100 characters.)
\<close>

definition is_int_space :: "char \<Rightarrow> bool" where
  "is_int_space c = ((9 \<le> ord c \<and> ord c \<le> 13) \<or> ord c = 32 \<or> ord c = 133 \<or> ord c = 160)"

definition int_strip :: "string \<Rightarrow> string" where
  "int_strip s = rev (dropWhile is_int_space (rev (dropWhile is_int_space s)))"

definition digit_val :: "char \<Rightarrow> nat" where
  "digit_val c = ord c - 48"

fun int_digits :: "nat \<Rightarrow> string \<Rightarrow> nat option" where
  "int_digits acc [] = Some acc"
| "int_digits acc (c # cs) =
     (if is_digit c then int_digits (acc * 10 + digit_val c) cs
      else if c = CHR ''_'' then
        (case cs of
           [] \<Rightarrow> None
         | d # ds \<Rightarrow> if is_digit d then int_digits acc cs else None)
      else None)"

definition nat_of_str :: "string \<Rightarrow> nat option" where
  "nat_of_str s = (case s of [] \<Rightarrow> None | c # cs \<Rightarrow> if is_digit c then int_digits 0 s else None)"

definition int_of_str :: "string \<Rightarrow> int option" where
  "int_of_str s =
     (case int_strip s of
        [] \<Rightarrow> None
      | c # cs \<Rightarrow>
          if c = CHR ''-'' then map_option (\<lambda>n. - int n) (nat_of_str cs)
          else if c = CHR ''+'' then map_option int (nat_of_str cs)
          else map_option int (nat_of_str (c # cs)))"

text \<open>\<^verbatim>\<open>int(value)\<close> and \<^verbatim>\<open>float(value)\<close>; \<open>None\<close> when the builtin raises.\<close>

definition py_int :: "'f float_ops \<Rightarrow> 'f pyvalue \<Rightarrow> int option" where
  "py_int fl v =
     (case v of
        PStr s \<Rightarrow> int_of_str s
      | PInt n \<Rightarrow> Some n
      | PFloat x \<Rightarrow> int_of_float fl x
      | _ \<Rightarrow> None)"

definition py_float :: "'f float_ops \<Rightarrow> 'f pyvalue \<Rightarrow> 'f option" where
  "py_float fl v =
     (case v of
        PStr s \<Rightarrow> float_of_str fl s
      | PInt n \<Rightarrow> float_of_int fl n
      | PFloat x \<Rightarrow> Some x
      | _ \<Rightarrow> None)"

text \<open>
  \<^verbatim>\<open>unidecode.unidecode(s)\<close>: a character below 128 is kept, any other is replaced by the
  entry of the library's transliteration table, which is the parameter \<open>tbl\<close>.
\<close>

definition unidecode :: "(char \<Rightarrow> string) \<Rightarrow> string \<Rightarrow> string" where
  "unidecode tbl s = concat (map (\<lambda>c. if ord c < 128 then [c] else tbl c) s)"

section \<open>epm/field\_descriptor.py: FieldDescriptor\<close>

text \<open>
  A tag store is a Python \<^verbatim>\<open>dict\<close> from the tag's ref to the list of its values: an
  association list in insertion order, with \<open>map_of\<close> as lookup and \<open>AList.update\<close> as
  item assignment. The field \<open>table_descriptor\<close> is the back-reference to the owning table
  descriptor, of which the class reads \<^verbatim>\<open>table_name\<close> only; \<open>detailed_type_cache\<close> is the
  attribute \<^verbatim>\<open>_detailed_type\<close>.
\<close>

type_synonym tag_store = "(string \<times> string list) list"

record FieldDescriptor =
  table_descriptor :: string
  index :: int
  basic_type :: string
  name :: "string option"
  ref :: "string option"
  tags :: tag_store
  detailed_type_cache :: "string option"

definition has_key :: "('k \<times> 'v) list \<Rightarrow> 'k \<Rightarrow> bool" where
  "has_key d k = (map_of d k \<noteq> None)"

definition FieldDescriptor_init ::
  "string \<Rightarrow> int \<Rightarrow> string \<Rightarrow> string option \<Rightarrow> error + FieldDescriptor" where
  "FieldDescriptor_init td idx field_basic_type nm =
     (if field_basic_type \<notin> set [''A'', ''N'']
      then Inl (ValueError (''Unknown field type: '' @ [apostrophe] @ field_basic_type @ [apostrophe] @ ''.''))
      else Inr \<lparr>table_descriptor = td, index = idx, basic_type = field_basic_type,
                name = nm, ref = map_option var_name_to_ref nm, tags = [],
                detailed_type_cache = None\<rparr>)"

definition append_tag :: "FieldDescriptor \<Rightarrow> string \<Rightarrow> string option \<Rightarrow> FieldDescriptor" where
  "append_tag fd r v =
     (let tags1 = (if \<not> has_key (tags fd) r then AList.update r [] (tags fd) else tags fd)
      in case v of
           None \<Rightarrow> fd\<lparr>tags := tags1\<rparr>
         | Some x \<Rightarrow>
             fd\<lparr>tags := AList.update r ((case map_of tags1 r of None \<Rightarrow> [] | Some vs \<Rightarrow> vs) @ [x]) tags1\<rparr>)"

text \<open>
  The property \<^verbatim>\<open>detailed_type\<close> returns its result and the descriptor with the cache
  filled. \<^verbatim>\<open>self.tags["type"][0]\<close> raises \<^verbatim>\<open>IndexError\<close> when the tag was declared with no
  value.
\<close>

definition set_detailed_type :: "FieldDescriptor \<Rightarrow> string \<Rightarrow> (error + string) \<times> FieldDescriptor" where
  "set_detailed_type fd dt = (Inr dt, fd\<lparr>detailed_type_cache := Some dt\<rparr>)"

definition detailed_type :: "FieldDescriptor \<Rightarrow> (error + string) \<times> FieldDescriptor" where
  "detailed_type fd =
     (case detailed_type_cache fd of
        Some dt \<Rightarrow> (Inr dt, fd)
      | None \<Rightarrow>
          if has_key (tags fd) ''reference'' \<or> has_key (tags fd) ''reference-class-name''
          then set_detailed_type fd ''reference''
          else if has_key (tags fd) ''type'' then
            (case map_of (tags fd) ''type'' of
               Some (v # vs) \<Rightarrow> set_detailed_type fd (str_lower v)
             | _ \<Rightarrow> (Inl IndexError, fd))
          else if has_key (tags fd) ''key'' then set_detailed_type fd ''choice''
          else if has_key (tags fd) ''object-list'' then set_detailed_type fd ''object-list''
          else if has_key (tags fd) ''external-list'' then set_detailed_type fd ''external-list''
          else if basic_type fd = ''A'' then set_detailed_type fd ''alpha''
          else if basic_type fd = ''N'' then set_detailed_type fd ''real''
          else (Inl (ValueError ''Can't find detailed type.''), fd))"

definition get_error_location_message ::
  "FieldDescriptor \<Rightarrow> 'v option \<Rightarrow> 'v error_location" where
  "get_error_location_message fd v = (table_descriptor fd, index fd, ref fd, v)"

definition is_required :: "FieldDescriptor \<Rightarrow> bool" where
  "is_required fd = has_key (tags fd) ''required-field''"

definition check_not_required :: "FieldDescriptor \<Rightarrow> 'v raised + unit" where
  "check_not_required fd =
     (if is_required fd
      then Inl (FieldValidationError FieldIsRequired (get_error_location_message fd None))
      else Inr ())"

text \<open>
  \<^verbatim>\<open>deserialize\<close>, lines 43 to 62: the preparation of a \<^verbatim>\<open>str\<close>. \<open>collapse_spaces\<close> is
  \<^verbatim>\<open>re.sub(spaces_pattern, lambda x: " ", value.strip())\<close>; \<open>ascii_case\<close> is the
  transliteration followed by the lower-casing that the tag \<^verbatim>\<open>retaincase\<close> switches off;
  \<open>normalize\<close> is their composition, the text that the length check reads.
\<close>

definition collapse_spaces :: "string \<Rightarrow> string" where
  "collapse_spaces s = re_sub_runs 1 is_space '' '' (str_strip s)"

definition ascii_case :: "(char \<Rightarrow> string) \<Rightarrow> FieldDescriptor \<Rightarrow> string \<Rightarrow> string" where
  "ascii_case tbl fd s =
     (let s1 = unidecode tbl s
      in if \<not> has_key (tags fd) ''retaincase'' then str_lower s1 else s1)"

definition normalize :: "(char \<Rightarrow> string) \<Rightarrow> FieldDescriptor \<Rightarrow> string \<Rightarrow> string" where
  "normalize tbl fd s = ascii_case tbl fd (collapse_spaces s)"

text \<open>
  The whitespace normalisation in the words of the specification: collapse any run of
  whitespace to a single space, and trim. (The code trims first, then collapses.)
\<close>

definition whitespace_normalize_spec :: "string \<Rightarrow> string" where
  "whitespace_normalize_spec s = str_strip (re_sub_runs 1 is_space '' '' s)"

text \<open>
  \<^verbatim>\<open>deserialize\<close>, lines 64 to 106: the dispatch on the detailed type. The property is
  read once here; every later read of the source returns the cached value
  (lemma \<open>detailed_type_memo\<close>).
\<close>

definition deserialize_by_type ::
  "'f float_ops \<Rightarrow> FieldDescriptor \<Rightarrow> 'f pyvalue \<Rightarrow>
   ('f pyvalue raised + 'f pyvalue) \<times> FieldDescriptor" where
  "deserialize_by_type fl fd v =
     (case detailed_type fd of
        (Inl e, fd1) \<Rightarrow> (Inl (Builtin e), fd1)
      | (Inr dt, fd1) \<Rightarrow>
          if dt \<in> set [''integer'', ''real''] then
            if v \<in> set [PStr ''autocalculate'', PStr ''autosize'', PStr ''useweatherfile'']
            then (Inr v, fd1)
            else if dt = ''integer'' then
              (case py_int fl v of
                 Some n \<Rightarrow> (Inr (PInt n), fd1)
               | None \<Rightarrow>
                   (Inl (FieldValidationError CouldntParseToInteger
                      (get_error_location_message fd1 (Some v))), fd1))
            else
              (case py_float fl v of
                 Some x \<Rightarrow> (Inr (PFloat x), fd1)
               | None \<Rightarrow>
                   (Inl (FieldValidationError CouldntParseToFloat
                      (get_error_location_message fd1 (Some v))), fd1))
          else if dt \<in> set [''alpha'', ''choice'', ''node'', ''external-list''] then
            (case v of
               PStr s \<Rightarrow> (Inr v, fd1)
             | _ \<Rightarrow>
                 (Inl (FieldValidationError ValueMustBeAString
                    (get_error_location_message fd1 (Some v))), fd1))
          else if dt = ''reference'' then
            (Inr (PRecordHook (case map_of (tags fd1) ''reference'' of None \<Rightarrow> [] | Some rs \<Rightarrow> rs) v), fd1)
          else if dt = ''object-list'' then
            (case map_of (tags fd1) ''object-list'' of
               None \<Rightarrow> (Inl (Builtin (KeyError ''object-list'')), fd1)
             | Some [] \<Rightarrow> (Inl (Builtin IndexError), fd1)
             | Some (reference # rs) \<Rightarrow> (Inr (PLink reference v), fd1))
          else (Inl (Builtin (RuntimeError ''should not be here'')), fd1))"

definition deserialize ::
  "(char \<Rightarrow> string) \<Rightarrow> 'f float_ops \<Rightarrow> FieldDescriptor \<Rightarrow> 'f pyvalue \<Rightarrow>
   ('f pyvalue raised + 'f pyvalue) \<times> FieldDescriptor" where
  "deserialize tbl fl fd v =
     (case v of
        PNone \<Rightarrow> (Inr PNone, fd)
      | PStr s \<Rightarrow>
          if collapse_spaces s = [] then (Inr PNone, fd)
          else if 100 \<le> length (normalize tbl fd s) then
            (Inl (FieldValidationError MoreThan100Characters
               (get_error_location_message fd (Some (PStr (normalize tbl fd s))))), fd)
          else deserialize_by_type fl fd (PStr (normalize tbl fd s))
      | _ \<Rightarrow> deserialize_by_type fl fd v)"

text \<open>
  What a caller does with a descriptor once it is constructed: it calls \<^verbatim>\<open>append_tag\<close> or
  reads the property \<^verbatim>\<open>detailed_type\<close> (a read that raises leaves the descriptor as it
  was). \<open>apply_op\<close> gives the descriptor after one such use; a sequence of uses is a fold.
\<close>

datatype field_op = AppendTag string "string option" | ReadDetailedType

fun apply_op :: "FieldDescriptor \<Rightarrow> field_op \<Rightarrow> FieldDescriptor" where
  "apply_op fd (AppendTag r v) = append_tag fd r v"
| "apply_op fd ReadDetailedType = snd (detailed_type fd)"

section \<open>Example data\<close>

text \<open>
  The descriptors and parameters at which the theorems below are instantiated: a field
  descriptor of table \<^verbatim>\<open>Zone\<close> named \<^verbatim>\<open>Name\<close> as the constructor leaves it, with a given
  basic type and tag store; a transliteration table sending every character from 128 on to
  a question mark; and conversions for a toy model of the floats, a pair of a mantissa and
  a decimal exponent, that reads \<^verbatim>\<open>1.5\<close> only.
\<close>

definition example_fd :: "string \<Rightarrow> tag_store \<Rightarrow> FieldDescriptor" where
  "example_fd bt tgs =
     \<lparr>table_descriptor = ''Zone'', index = 0, basic_type = bt, name = Some ''Name'',
      ref = Some ''name'', tags = tgs, detailed_type_cache = None\<rparr>"

definition example_table :: "char \<Rightarrow> string" where
  "example_table c = ''?''"

definition example_float_ops :: "(int \<times> int) float_ops" where
  "example_float_ops =
     \<lparr>float_of_str = (\<lambda>s. if s = ''1.5'' then Some (15, - 1) else None),
      float_of_int = (\<lambda>n. Some (n, 0)),
      int_of_float = (\<lambda>x. if snd x = 0 then Some (fst x) else None)\<rparr>"

section \<open>Properties of the identifier derivation\<close>

lemma re_sub_runs_one:
  "re_sub_runs (Suc 0) P r (c # cs) =
     (if P c then r @ re_sub_runs (Suc 0) P r (dropWhile P cs) else c # re_sub_runs (Suc 0) P r cs)"
  by simp

lemma sq_run:
  "t \<noteq> [] \<Longrightarrow> \<forall>x\<in>set t. P x \<Longrightarrow>
   re_sub_runs (Suc 0) P r (t @ b) = r @ re_sub_runs (Suc 0) P r (dropWhile P b)"
  by (cases t) (simp_all add: dropWhile_append2)

lemma sq_append_cong:
  assumes "r1 \<noteq> []" "P (hd r1)" "r2 \<noteq> []" "P (hd r2)" "dropWhile P r1 = dropWhile P r2"
  shows "length a \<le> n \<Longrightarrow>
         re_sub_runs (Suc 0) P r (a @ r1) = re_sub_runs (Suc 0) P r (a @ r2)"
proof (induction n arbitrary: a)
  case 0
  obtain x xs y ys where "r1 = x # xs" "r2 = y # ys" "P x" "P y"
    using assms by (cases r1; cases r2) auto
  then show ?case using 0 assms(5) by simp
next
  case (Suc n)
  show ?case
  proof (cases a)
    case Nil
    obtain x xs y ys where "r1 = x # xs" "r2 = y # ys" "P x" "P y"
      using assms by (cases r1; cases r2) auto
    then show ?thesis using Nil assms(5) by simp
  next
    case (Cons c cs)
    have len: "length cs \<le> n" using Suc.prems Cons by simp
    show ?thesis
    proof (cases "P c")
      case False
      then show ?thesis using Suc.IH [OF len] Cons by simp
    next
      case True
      show ?thesis
      proof (cases "\<forall>x\<in>set cs. P x")
        case True
        then show ?thesis using \<open>P c\<close> Cons assms(5) by (simp add: dropWhile_append2)
      next
        case False
        then obtain x where x: "x \<in> set cs" "\<not> P x" by blast
        have len': "length (dropWhile P cs) \<le> n"
          using len length_dropWhile_le [of P cs] by simp
        show ?thesis using \<open>P c\<close> Cons Suc.IH [OF len'] x
          by (simp add: dropWhile_append1)
      qed
    qed
  qed
qed

lemma sq_sep_swap:
  assumes "s1 \<noteq> []" "s2 \<noteq> []" "\<forall>x\<in>set s1. P x" "\<forall>x\<in>set s2. P x"
  shows "re_sub_runs (Suc 0) P r (a @ s1 @ b) = re_sub_runs (Suc 0) P r (a @ s2 @ b)"
proof (rule sq_append_cong [where n = "length a"])
  show "s1 @ b \<noteq> []" "s2 @ b \<noteq> []" using assms by simp_all
  show "P (hd (s1 @ b))" using assms(1,3) by (cases s1) simp_all
  show "P (hd (s2 @ b))" using assms(2,4) by (cases s2) simp_all
  show "dropWhile P (s1 @ b) = dropWhile P (s2 @ b)"
    using assms(3,4) by (simp add: dropWhile_append2)
qed simp

lemma sq_keeps_head:
  "t = [] \<or> \<not> P (hd t) \<Longrightarrow>
   dropWhile P (re_sub_runs (Suc 0) P r t) = re_sub_runs (Suc 0) P r t"
  by (cases t) auto

lemma sq_hd_dropWhile:
  "dropWhile P (re_sub_runs (Suc 0) P r (dropWhile P cs)) = re_sub_runs (Suc 0) P r (dropWhile P cs)"
  using hd_dropWhile [of P cs] by (intro sq_keeps_head) blast

lemma sq_idem:
  "P u \<Longrightarrow> length s \<le> n \<Longrightarrow>
   re_sub_runs (Suc 0) P [u] (re_sub_runs (Suc 0) P [u] s) = re_sub_runs (Suc 0) P [u] s"
proof (induction n arbitrary: s)
  case 0
  then show ?case by simp
next
  case (Suc n)
  show ?case
  proof (cases s)
    case Nil
    then show ?thesis by simp
  next
    case (Cons c cs)
    have len: "length cs \<le> n" using Suc.prems Cons by simp
    have len': "length (dropWhile P cs) \<le> n"
      using len length_dropWhile_le [of P cs] by simp
    show ?thesis
    proof (cases "P c")
      case True
      then show ?thesis using Cons Suc.IH [OF Suc.prems(1) len'] Suc.prems(1)
        by (simp add: sq_hd_dropWhile)
    next
      case False
      then show ?thesis using Cons Suc.IH [OF Suc.prems(1) len] by simp
    qed
  qed
qed

lemma sq_set:
  "length s \<le> n \<Longrightarrow> set (re_sub_runs (Suc 0) P r s) \<subseteq> set s \<union> set r"
proof (induction n arbitrary: s)
  case 0
  then show ?case by simp
next
  case (Suc n)
  show ?case
  proof (cases s)
    case Nil
    then show ?thesis by simp
  next
    case (Cons c cs)
    have len: "length cs \<le> n" using Suc.prems Cons by simp
    have len': "length (dropWhile P cs) \<le> n"
      using len length_dropWhile_le [of P cs] by simp
    have "set (dropWhile P cs) \<subseteq> set cs" by (rule set_dropWhileD [THEN subsetI]) 
    then show ?thesis using Cons Suc.IH [OF len] Suc.IH [OF len'] by auto
  qed
qed

lemma is_upper_cases:
  assumes "is_upper c"
  obtains (ascii) "65 \<le> ord c" "ord c \<le> 90"
    | (latin1) "192 \<le> ord c" "ord c \<le> 214"
    | (latin2) "216 \<le> ord c" "ord c \<le> 222"
  using assms unfolding is_upper_def by blast

lemma ord_lower_char: "is_upper c \<Longrightarrow> ord (lower_char c) = ord c + 32"
proof -
  assume u: "is_upper c"
  then have "ord c \<le> 222" by (cases rule: is_upper_cases) simp_all
  then show ?thesis using u by (simp add: lower_char_def ord_def)
qed

lemma not_upper_lower_char: "\<not> is_upper (lower_char c)"
proof (cases "is_upper c")
  case True
  note o = ord_lower_char [OF True]
  from True show ?thesis
    by (cases rule: is_upper_cases) (simp_all add: is_upper_def [of "lower_char c"] o)
next
  case False
  then show ?thesis by (simp add: lower_char_def)
qed

lemma lower_char_idem: "lower_char (lower_char c) = lower_char c"
  using not_upper_lower_char [of c] by (simp add: lower_char_def [of "lower_char c"])

lemma str_lower_fixed: "\<forall>c\<in>set s. \<not> is_upper c \<Longrightarrow> str_lower s = s"
  by (induction s) (simp_all add: str_lower_def lower_char_def)

lemma is_alnum_lower_char: "is_upper c \<Longrightarrow> is_alnum (lower_char c) \<and> is_alnum c"
proof -
  assume u: "is_upper c"
  note o = ord_lower_char [OF u]
  from u show ?thesis
    by (cases rule: is_upper_cases)
      (simp_all add: is_alnum_def [of "lower_char c"] is_alnum_def [of c] o)
qed

lemma is_word_lower_char: "is_word (lower_char c) = is_word c"
proof (cases "is_upper c")
  case True
  then show ?thesis using is_alnum_lower_char [of c] by (simp add: is_word_def)
next
  case False
  then show ?thesis by (simp add: lower_char_def)
qed

lemma ord_underscore: "ord (CHR ''_'') = 95"
  by (simp add: ord_def)

lemma lower_char_underscore: "(lower_char c = CHR ''_'') = (c = CHR ''_'')"
proof (cases "is_upper c")
  case True
  note o = ord_lower_char [OF True]
  from True have "ord (lower_char c) \<noteq> 95 \<and> ord c \<noteq> 95"
    by (cases rule: is_upper_cases) (simp_all add: o)
  then have "lower_char c \<noteq> CHR ''_''" "c \<noteq> CHR ''_''" using ord_underscore by auto
  then show ?thesis by simp
next
  case False
  then show ?thesis by (simp add: lower_char_def)
qed

lemma is_sep_lower_char: "is_sep (lower_char c) = is_sep c"
  by (simp add: is_sep_def is_word_lower_char lower_char_underscore)

lemma not_upper_underscore: "\<not> is_upper (CHR ''_'')"
  by (simp add: is_upper_def ord_underscore)

lemma collapse_underscore_Cons:
  "re_sub_runs 2 is_underscore ''_'' (CHR ''_'' # t) =
     CHR ''_'' # re_sub_runs 2 is_underscore ''_'' (dropWhile is_underscore t)"
  by (cases t) (auto simp: is_underscore_def)

lemma collapse_other_Cons:
  "c \<noteq> CHR ''_'' \<Longrightarrow>
   re_sub_runs 2 is_underscore ''_'' (c # t) = c # re_sub_runs 2 is_underscore ''_'' t"
  by (simp add: is_underscore_def)

lemma dropWhile_sep_not_word:
  "dropWhile is_sep (dropWhile not_word cs) = dropWhile is_sep cs"
  by (induction cs) (auto simp: is_sep_def not_word_def)

lemma squash_aux:
  "length s \<le> n \<Longrightarrow>
   re_sub_runs 2 is_underscore ''_'' (re_sub_runs 1 not_word ''_'' s) = re_sub_runs 1 is_sep ''_'' s \<and>
   re_sub_runs 2 is_underscore ''_'' (dropWhile is_underscore (re_sub_runs 1 not_word ''_'' s))
     = re_sub_runs 1 is_sep ''_'' (dropWhile is_sep s)"
proof (induction n arbitrary: s)
  case 0
  then show ?case by simp
next
  case (Suc n)
  show ?case
  proof (cases s)
    case Nil
    then show ?thesis by simp
  next
    case (Cons c cs)
    have len: "length cs \<le> n" using Suc.prems Cons by simp
    have len': "length (dropWhile not_word cs) \<le> n"
      using len length_dropWhile_le [of not_word cs] by simp
    note ih1 = Suc.IH [OF len] and ih2 = Suc.IH [OF len']
    have u: "is_underscore (CHR ''_'')" by (simp add: is_underscore_def)
    consider (us) "c = CHR ''_''" | (word) "is_word c" "c \<noteq> CHR ''_''" | (other) "\<not> is_word c"
      by blast
    then show ?thesis
    proof cases
      case us
      then have f: "\<not> not_word c" "is_sep c" "is_underscore c"
        by (simp_all add: not_word_def is_word_def is_sep_def is_underscore_def)
      show ?thesis using ih1 f u unfolding Cons
        by (simp add: re_sub_runs_one collapse_underscore_Cons us del: re_sub_runs.simps)
    next
      case word
      then have f: "\<not> not_word c" "\<not> is_sep c" "\<not> is_underscore c"
        by (simp_all add: not_word_def is_sep_def is_underscore_def)
      show ?thesis using ih1 f word(2) unfolding Cons
        by (simp add: re_sub_runs_one collapse_other_Cons del: re_sub_runs.simps)
    next
      case other
      then have f: "not_word c" "is_sep c"
        by (simp_all add: not_word_def is_sep_def)
      show ?thesis using ih2 f u unfolding Cons
        by (simp add: re_sub_runs_one collapse_underscore_Cons dropWhile_sep_not_word del: re_sub_runs.simps)
    qed
  qed
qed

lemma var_name_to_ref_squash:
  "var_name_to_ref nm = re_sub_runs 1 is_sep ''_'' (str_lower nm)"
  using squash_aux [of "str_lower nm" "length (str_lower nm)"]
  by (simp add: var_name_to_ref_def)

lemma str_lower_squash:
  "str_lower (re_sub_runs 1 is_sep ''_'' (str_lower s)) = re_sub_runs 1 is_sep ''_'' (str_lower s)"
proof (rule str_lower_fixed, rule ballI)
  fix c assume "c \<in> set (re_sub_runs 1 is_sep ''_'' (str_lower s))"
  then have "c \<in> set (str_lower s) \<or> c = CHR ''_''"
    using sq_set [of "str_lower s" "length (str_lower s)" is_sep "''_''"] by auto
  then show "\<not> is_upper c"
  proof
    assume "c \<in> set (str_lower s)"
    then show ?thesis by (auto simp: str_lower_def not_upper_lower_char)
  next
    assume "c = CHR ''_''"
    then show ?thesis by (simp add: not_upper_underscore)
  qed
qed

lemma var_name_to_ref_idem: "var_name_to_ref (var_name_to_ref s) = var_name_to_ref s"
proof -
  have u: "is_sep (CHR ''_'')" by (simp add: is_sep_def)
  show ?thesis
    unfolding var_name_to_ref_squash str_lower_squash
    using sq_idem [of is_sep "CHR ''_''" "str_lower s" "length (str_lower s)"] u by simp
qed

lemma var_name_to_ref_sep:
  assumes "s1 \<noteq> []" "s2 \<noteq> []" "\<forall>c\<in>set (s1 @ s2). is_sep c"
  shows "var_name_to_ref (p @ s1 @ q) = var_name_to_ref (p @ s2 @ q)"
proof -
  have "\<forall>x\<in>set (str_lower s1). is_sep x" "\<forall>x\<in>set (str_lower s2). is_sep x"
    using assms(3) by (auto simp: str_lower_def is_sep_lower_char)
  moreover have "str_lower s1 \<noteq> []" "str_lower s2 \<noteq> []"
    using assms(1,2) by (simp_all add: str_lower_def)
  ultimately have "re_sub_runs (Suc 0) is_sep ''_'' (str_lower p @ str_lower s1 @ str_lower q)
      = re_sub_runs (Suc 0) is_sep ''_'' (str_lower p @ str_lower s2 @ str_lower q)"
    by (rule sq_sep_swap [rotated 2])
  then show ?thesis by (simp add: var_name_to_ref_squash str_lower_def)
qed

lemma sq_prefix_plain:
  "\<forall>c\<in>set w. \<not> P c \<Longrightarrow>
   re_sub_runs (Suc 0) P r (w @ t) = w @ re_sub_runs (Suc 0) P r t"
  by (induction w) simp_all

lemma sq_fixed: "\<forall>c\<in>set w. \<not> P c \<Longrightarrow> re_sub_runs (Suc 0) P r w = w"
  using sq_prefix_plain [of w P r "[]"] by simp

lemma dropWhile_hd_id: "q = [] \<or> \<not> P (hd q) \<Longrightarrow> dropWhile P q = q"
  by (cases q) auto

lemma var_name_to_ref_word:
  assumes "\<forall>c\<in>set w. \<not> is_sep c"
  shows "var_name_to_ref w = str_lower w"
proof -
  have "\<forall>c\<in>set (str_lower w). \<not> is_sep c"
    using assms by (auto simp: str_lower_def is_sep_lower_char)
  then show ?thesis by (simp add: var_name_to_ref_squash sq_fixed)
qed

lemma var_name_to_ref_run:
  assumes "s \<noteq> []" "\<forall>c\<in>set s. is_sep c" "\<forall>c\<in>set w. \<not> is_sep c"
    "q = [] \<or> \<not> is_sep (hd q)"
  shows "var_name_to_ref (w @ s @ q) = str_lower w @ ''_'' @ var_name_to_ref q"
proof -
  have w: "\<forall>c\<in>set (str_lower w). \<not> is_sep c"
    using assms(3) by (auto simp: str_lower_def is_sep_lower_char)
  have s: "str_lower s \<noteq> []" "\<forall>c\<in>set (str_lower s). is_sep c"
    using assms(1,2) by (auto simp: str_lower_def is_sep_lower_char)
  have "str_lower q = [] \<or> \<not> is_sep (hd (str_lower q))"
    using assms(4) by (cases q) (auto simp: str_lower_def is_sep_lower_char)
  then have q: "dropWhile is_sep (str_lower q) = str_lower q" by (rule dropWhile_hd_id)
  have "re_sub_runs (Suc 0) is_sep ''_'' (str_lower w @ str_lower s @ str_lower q)
      = str_lower w @ re_sub_runs (Suc 0) is_sep ''_'' (str_lower s @ str_lower q)"
    using w by (rule sq_prefix_plain)
  also have "re_sub_runs (Suc 0) is_sep ''_'' (str_lower s @ str_lower q)
      = ''_'' @ re_sub_runs (Suc 0) is_sep ''_'' (str_lower q)"
    using sq_run [OF s, of "''_''" "str_lower q"] q by simp
  finally show ?thesis by (simp add: var_name_to_ref_squash str_lower_def)
qed

text \<open>
  Claim C2, as the code has it. Identifier derivation is idempotent; names with the same
  lower-casing get the same ref; replacing one non-empty run of separator characters
  (characters outside \<^verbatim>\<open>\w\<close>, or underscores) by another leaves the ref unchanged. What
  the derivation returns is fixed by two laws: a name without separator characters yields
  its lower-casing, and a maximal run of separator characters, wherever it stands, yields
  exactly one underscore between the refs of what precedes and what follows it. So the run
  at the end of \<^verbatim>\<open>"Zone  Name!!"\<close> is not removed: that name yields \<^verbatim>\<open>zone_name_\<close>, while
  \<^verbatim>\<open>"Zone  Name"\<close> and \<^verbatim>\<open>"zone_name"\<close> yield \<^verbatim>\<open>zone_name\<close>.
\<close>

theorem var_name_to_ref_collapse:
  "var_name_to_ref (var_name_to_ref nm) = var_name_to_ref nm \<and>
   (str_lower a = str_lower b \<longrightarrow> var_name_to_ref a = var_name_to_ref b) \<and>
   (s1 \<noteq> [] \<and> s2 \<noteq> [] \<and> (\<forall>c\<in>set (s1 @ s2). is_sep c) \<longrightarrow>
      var_name_to_ref (p @ s1 @ q) = var_name_to_ref (p @ s2 @ q)) \<and>
   ((\<forall>c\<in>set w. \<not> is_sep c) \<longrightarrow> var_name_to_ref w = str_lower w) \<and>
   ((\<forall>c\<in>set w. \<not> is_sep c) \<and> s \<noteq> [] \<and> (\<forall>c\<in>set s. is_sep c) \<and>
    (t = [] \<or> \<not> is_sep (hd t)) \<longrightarrow>
      var_name_to_ref (w @ s @ t) = str_lower w @ ''_'' @ var_name_to_ref t) \<and>
   var_name_to_ref ''Zone  Name!!'' = ''zone_name_'' \<and>
   var_name_to_ref ''Zone  Name'' = ''zone_name'' \<and>
   var_name_to_ref ''zone_name'' = ''zone_name''"
proof (intro conjI impI)
  show "var_name_to_ref (var_name_to_ref nm) = var_name_to_ref nm"
    by (rule var_name_to_ref_idem)
  show "var_name_to_ref a = var_name_to_ref b" if "str_lower a = str_lower b"
    using that by (simp add: var_name_to_ref_def)
  show "var_name_to_ref (p @ s1 @ q) = var_name_to_ref (p @ s2 @ q)"
    if "s1 \<noteq> [] \<and> s2 \<noteq> [] \<and> (\<forall>c\<in>set (s1 @ s2). is_sep c)"
    using that by (intro var_name_to_ref_sep) simp_all
  show "var_name_to_ref w = str_lower w" if "\<forall>c\<in>set w. \<not> is_sep c"
    using that by (rule var_name_to_ref_word)
  show "var_name_to_ref (w @ s @ t) = str_lower w @ ''_'' @ var_name_to_ref t"
    if "(\<forall>c\<in>set w. \<not> is_sep c) \<and> s \<noteq> [] \<and> (\<forall>c\<in>set s. is_sep c) \<and>
        (t = [] \<or> \<not> is_sep (hd t))"
    using that by (intro var_name_to_ref_run) simp_all
  show "var_name_to_ref ''Zone  Name!!'' = ''zone_name_''" by code_simp
  show "var_name_to_ref ''Zone  Name'' = ''zone_name''" by code_simp
  show "var_name_to_ref ''zone_name'' = ''zone_name''" by code_simp
qed

text \<open>
  The theorem of C2 at concrete names, each hypothesis discharged: two spellings of a name
  that differ by case; two runs of separators between \<^verbatim>\<open>Zone\<close> and \<^verbatim>\<open>Name\<close>; a name of
  letters only, the last one the capital E with an acute accent (code point 201), a word
  character that is lower-cased to code point 233; and runs of separators at the start,
  in the middle and at the end of a name.
\<close>

theorem var_name_to_ref_collapse_witness:
  "str_lower ''Zone Name'' = str_lower ''ZONE NAME'' \<and>
   var_name_to_ref ''Zone Name'' = var_name_to_ref ''ZONE NAME'' \<and>
   ''  '' \<noteq> [] \<and> ''_-'' \<noteq> [] \<and> list_all is_sep (''  '' @ ''_-'') \<and>
   var_name_to_ref (''Zone'' @ ''  '' @ ''Name'') = var_name_to_ref (''Zone'' @ ''_-'' @ ''Name'') \<and>
   list_all (\<lambda>c. \<not> is_sep c) (''Caf'' @ [CHR 0xC9]) \<and>
   var_name_to_ref (''Caf'' @ [CHR 0xC9]) = ''caf'' @ [CHR 0xE9] \<and>
   list_all (\<lambda>c. \<not> is_sep c) ''Zone'' \<and> list_all is_sep ''  '' \<and> \<not> is_sep (hd ''Name!!'') \<and>
   var_name_to_ref (''Zone'' @ ''  '' @ ''Name!!'') = ''zone'' @ ''_'' @ var_name_to_ref ''Name!!'' \<and>
   list_all (\<lambda>c. \<not> is_sep c) ''Name'' \<and> ''!!'' \<noteq> [] \<and> list_all is_sep ''!!'' \<and>
   var_name_to_ref (''Name'' @ ''!!'' @ []) = ''name'' @ ''_'' @ var_name_to_ref [] \<and>
   var_name_to_ref ([] @ ''  '' @ ''Zone'') = [] @ ''_'' @ var_name_to_ref ''Zone'' \<and>
   var_name_to_ref (var_name_to_ref ''Zone  Name!!'') = var_name_to_ref ''Zone  Name!!''"
proof -
  have h1: "str_lower ''Zone Name'' = str_lower ''ZONE NAME''" by code_simp
  have h2: "list_all is_sep (''  '' @ ''_-'')" by code_simp
  then have h2': "\<forall>c\<in>set (''  '' @ ''_-''). is_sep c" unfolding list_all_iff .
  have h3: "''  '' \<noteq> [] \<and> ''_-'' \<noteq> [] \<and> ''!!'' \<noteq> []" by simp
  have h4: "list_all (\<lambda>c. \<not> is_sep c) (''Caf'' @ [CHR 0xC9])" by code_simp
  then have h4': "\<forall>c\<in>set (''Caf'' @ [CHR 0xC9]). \<not> is_sep c" unfolding list_all_iff .
  have h5: "str_lower (''Caf'' @ [CHR 0xC9]) = ''caf'' @ [CHR 0xE9]" by code_simp
  have h6: "list_all (\<lambda>c. \<not> is_sep c) ''Zone''" "list_all is_sep ''  ''"
    "list_all (\<lambda>c. \<not> is_sep c) ''Name''" "list_all is_sep ''!!''"
    "list_all (\<lambda>c. \<not> is_sep c) []"
    by code_simp+
  then have h6': "\<forall>c\<in>set ''Zone''. \<not> is_sep c" "\<forall>c\<in>set ''  ''. is_sep c"
    "\<forall>c\<in>set ''Name''. \<not> is_sep c" "\<forall>c\<in>set ''!!''. is_sep c"
    "\<forall>c\<in>set []. \<not> is_sep c"
    unfolding list_all_iff by blast+
  have h7: "\<not> is_sep (hd ''Name!!'')" "\<not> is_sep (hd ''Zone'')" by code_simp+
  have h8: "str_lower ''Zone'' = ''zone''" "str_lower ''Name'' = ''name''" "str_lower [] = []"
    by code_simp+
  note t1 = var_name_to_ref_collapse [of "''Zone  Name!!''" "''Zone Name''" "''ZONE NAME''"
      "''  ''" "''_-''" "''Zone''" "''Name''" "''Caf'' @ [CHR 0xC9]" "''  ''" "''Name!!''"]
  note t2 = var_name_to_ref_collapse [of "''Zone  Name!!''" "''Zone Name''" "''ZONE NAME''"
      "''  ''" "''_-''" "''Zone''" "''Name''" "''Zone''" "''  ''" "''Name!!''"]
  note t3 = var_name_to_ref_collapse [of "''Zone  Name!!''" "''Zone Name''" "''ZONE NAME''"
      "''  ''" "''_-''" "''Zone''" "''Name''" "''Name''" "''!!''" "[]"]
  note t4 = var_name_to_ref_collapse [of "''Zone  Name!!''" "''Zone Name''" "''ZONE NAME''"
      "''  ''" "''_-''" "''Zone''" "''Name''" "[]" "''  ''" "''Zone''"]
  from t1 h1 have c1: "var_name_to_ref ''Zone Name'' = var_name_to_ref ''ZONE NAME''" by blast
  from t1 h2' h3 have c2: "var_name_to_ref (''Zone'' @ ''  '' @ ''Name'')
      = var_name_to_ref (''Zone'' @ ''_-'' @ ''Name'')" by blast
  from t1 have c3: "var_name_to_ref (var_name_to_ref ''Zone  Name!!'') = var_name_to_ref ''Zone  Name!!''"
    by blast
  from t1 h4' have "var_name_to_ref (''Caf'' @ [CHR 0xC9]) = str_lower (''Caf'' @ [CHR 0xC9])"
    by blast
  then have c4: "var_name_to_ref (''Caf'' @ [CHR 0xC9]) = ''caf'' @ [CHR 0xE9]" unfolding h5 .
  from t2 h6' h3 h7 have "var_name_to_ref (''Zone'' @ ''  '' @ ''Name!!'')
      = str_lower ''Zone'' @ ''_'' @ var_name_to_ref ''Name!!''" by blast
  then have c5: "var_name_to_ref (''Zone'' @ ''  '' @ ''Name!!'') = ''zone'' @ ''_'' @ var_name_to_ref ''Name!!''"
    unfolding h8 .
  from t3 h6' h3 have "var_name_to_ref (''Name'' @ ''!!'' @ [])
      = str_lower ''Name'' @ ''_'' @ var_name_to_ref []" by blast
  then have c6: "var_name_to_ref (''Name'' @ ''!!'' @ []) = ''name'' @ ''_'' @ var_name_to_ref []"
    unfolding h8 .
  from t4 h6' h3 h7 have "var_name_to_ref ([] @ ''  '' @ ''Zone'')
      = str_lower [] @ ''_'' @ var_name_to_ref ''Zone''" by blast
  then have c7: "var_name_to_ref ([] @ ''  '' @ ''Zone'') = [] @ ''_'' @ var_name_to_ref ''Zone''"
    unfolding h8 .
  from h1 h2 h3 h4 h6 h7 c1 c2 c3 c4 c5 c6 c7 show ?thesis by blast
qed

text \<open>
  Claim C2 as stated says that \<^verbatim>\<open>"Zone  Name!!"\<close> yields \<^verbatim>\<open>zone_name\<close>; the code yields
  \<^verbatim>\<open>zone_name_\<close>.
\<close>

theorem var_name_to_ref_example_counterexample:
  "var_name_to_ref ''Zone  Name!!'' \<noteq> ''zone_name''"
  by code_simp

section \<open>Properties of the detailed type\<close>

lemma if_cases: "(c \<Longrightarrow> Q a) \<Longrightarrow> (\<not> c \<Longrightarrow> Q b) \<Longrightarrow> Q (if c then a else b)"
  by simp

lemma detailed_type_result:
  assumes cached: "\<And>dt. detailed_type_cache fd = Some dt \<Longrightarrow> Q (Inr dt, fd)"
    and filled: "\<And>dt. detailed_type_cache fd = None \<Longrightarrow>
                   Q (Inr dt, fd\<lparr>detailed_type_cache := Some dt\<rparr>)"
    and failed: "\<And>e. detailed_type_cache fd = None \<Longrightarrow>
                   e = IndexError \<or> e = ValueError ''Can't find detailed type.'' \<Longrightarrow>
                   Q (Inl e, fd)"
  shows "Q (detailed_type fd)"
proof (cases "detailed_type_cache fd")
  case (Some dt)
  then show ?thesis using cached by (simp add: detailed_type_def)
next
  case None
  note f = filled [OF None] and e = failed [OF None]
  have t: "Q (case map_of (tags fd) ''type'' of
               Some (v # vs) \<Rightarrow> set_detailed_type fd (str_lower v)
             | _ \<Rightarrow> (Inl IndexError, fd))"
    using f e by (simp add: set_detailed_type_def split: option.split list.split)
  show ?thesis
    unfolding detailed_type_def None option.case
    by (intro if_cases [of _ Q] t) (simp_all add: set_detailed_type_def f e)
qed

lemma detailed_type_frame:
  "tags (snd (detailed_type fd)) = tags fd"
  "table_descriptor (snd (detailed_type fd)) = table_descriptor fd"
  "index (snd (detailed_type fd)) = index fd"
  "ref (snd (detailed_type fd)) = ref fd"
  by (rule detailed_type_result; simp)+


lemma detailed_type_memo_aux:
  "\<forall>dt fd1. detailed_type fd = (Inr dt, fd1) \<longrightarrow> detailed_type fd1 = (Inr dt, fd1)"
  by (rule detailed_type_result) (auto simp: detailed_type_def)

lemma detailed_type_memo:
  "detailed_type fd = (Inr dt, fd1) \<Longrightarrow> detailed_type fd1 = (Inr dt, fd1)"
  using detailed_type_memo_aux by blast

lemma detailed_type_errors_aux:
  "\<forall>e. fst (detailed_type fd) = Inl e \<longrightarrow>
     e = IndexError \<or> e = ValueError ''Can't find detailed type.''"
  by (rule detailed_type_result) auto

lemma detailed_type_errors:
  "fst (detailed_type fd) = Inl e \<Longrightarrow> e = IndexError \<or> e = ValueError ''Can't find detailed type.''"
  using detailed_type_errors_aux by blast

lemma detailed_type_reference:
  "detailed_type_cache fd = None \<Longrightarrow>
   has_key (tags fd) ''reference'' \<or> has_key (tags fd) ''reference-class-name'' \<Longrightarrow>
   detailed_type fd = (Inr ''reference'', fd\<lparr>detailed_type_cache := Some ''reference''\<rparr>)"
  by (simp add: detailed_type_def set_detailed_type_def)


lemma append_tag_basic_type: "basic_type (append_tag fd r v) = basic_type fd"
  by (simp add: append_tag_def Let_def split: option.splits)


lemma detailed_type_basic_type: "basic_type (snd (detailed_type fd)) = basic_type fd"
  by (rule detailed_type_result; simp)

lemma apply_op_basic_type: "basic_type (apply_op fd x) = basic_type fd"
  by (cases x) (simp_all add: append_tag_basic_type detailed_type_basic_type)

lemma apply_ops_basic_type: "basic_type (foldl apply_op fd ops) = basic_type fd"
  by (induction ops arbitrary: fd) (simp_all add: apply_op_basic_type)

lemma init_fresh:
  "FieldDescriptor_init td i bt nm = Inr fd0 \<Longrightarrow>
   detailed_type_cache fd0 = None \<and> (basic_type fd0 = ''A'' \<or> basic_type fd0 = ''N'')"
  by (auto simp: FieldDescriptor_init_def split: if_splits)

lemma detailed_type_cached:
  "detailed_type_cache fd = Some dt \<Longrightarrow> detailed_type fd = (Inr dt, fd)"
  by (simp add: detailed_type_def)




lemma detailed_type_no_reference:
  assumes "detailed_type_cache fd = None" "\<not> has_key (tags fd) ''reference''"
    "\<not> has_key (tags fd) ''reference-class-name''"
  shows "detailed_type fd =
     (if has_key (tags fd) ''type'' then
        (case map_of (tags fd) ''type'' of
           Some (v # vs) \<Rightarrow> set_detailed_type fd (str_lower v)
         | _ \<Rightarrow> (Inl IndexError, fd))
      else if has_key (tags fd) ''key'' then set_detailed_type fd ''choice''
      else if has_key (tags fd) ''object-list'' then set_detailed_type fd ''object-list''
      else if has_key (tags fd) ''external-list'' then set_detailed_type fd ''external-list''
      else if basic_type fd = ''A'' then set_detailed_type fd ''alpha''
      else if basic_type fd = ''N'' then set_detailed_type fd ''real''
      else (Inl (ValueError ''Can't find detailed type.''), fd))"
  unfolding detailed_type_def assms(1) option.case using assms(2,3) by simp

lemma detailed_type_fresh_cases:
  assumes "detailed_type_cache fd = None" "basic_type fd = ''A'' \<or> basic_type fd = ''N''"
  shows "(map_of (tags fd) ''type'' = Some [] \<and> \<not> has_key (tags fd) ''reference'' \<and>
          \<not> has_key (tags fd) ''reference-class-name'' \<longrightarrow>
            fst (detailed_type fd) = Inl IndexError) \<and>
         (\<not> (map_of (tags fd) ''type'' = Some [] \<and> \<not> has_key (tags fd) ''reference'' \<and>
          \<not> has_key (tags fd) ''reference-class-name'') \<longrightarrow>
            (\<exists>dt. fst (detailed_type fd) = Inr dt))"
proof (cases "has_key (tags fd) ''reference'' \<or> has_key (tags fd) ''reference-class-name''")
  case True
  then show ?thesis using detailed_type_reference [OF assms(1)] by auto
next
  case False
  then have nr: "\<not> has_key (tags fd) ''reference''" "\<not> has_key (tags fd) ''reference-class-name''"
    by simp_all
  note d = detailed_type_no_reference [OF assms(1) nr]
  show ?thesis
  proof (cases "map_of (tags fd) ''type''")
    case None
    then have "\<not> has_key (tags fd) ''type''" by (simp add: has_key_def)
    then have "\<exists>dt. fst (detailed_type fd) = Inr dt"
      unfolding d using assms(2) by (auto simp: set_detailed_type_def)
    then show ?thesis using None by simp
  next
    case (Some vs)
    then have "has_key (tags fd) ''type''" by (simp add: has_key_def)
    then have "detailed_type fd = (case vs of v # vs' \<Rightarrow> set_detailed_type fd (str_lower v)
        | [] \<Rightarrow> (Inl IndexError, fd))"
      unfolding d using Some by (simp split: list.split)
    then show ?thesis using Some nr by (cases vs) (simp_all add: set_detailed_type_def)
  qed
qed

lemma detailed_type_cases:
  assumes "basic_type fd = ''A'' \<or> basic_type fd = ''N''"
  shows "(detailed_type_cache fd = None \<and> map_of (tags fd) ''type'' = Some [] \<and>
          \<not> has_key (tags fd) ''reference'' \<and> \<not> has_key (tags fd) ''reference-class-name'' \<longrightarrow>
            fst (detailed_type fd) = Inl IndexError) \<and>
         (\<not> (detailed_type_cache fd = None \<and> map_of (tags fd) ''type'' = Some [] \<and>
          \<not> has_key (tags fd) ''reference'' \<and> \<not> has_key (tags fd) ''reference-class-name'') \<longrightarrow>
            (\<exists>dt. fst (detailed_type fd) = Inr dt))"
proof (cases "detailed_type_cache fd")
  case None
  then show ?thesis using detailed_type_fresh_cases [OF None assms] by blast
next
  case (Some dt)
  then show ?thesis using detailed_type_cached [OF Some] by simp
qed

text \<open>
  Claim C10, as the code has it. The constructor accepts the basic types \<^verbatim>\<open>A\<close> and \<^verbatim>\<open>N\<close>
  and raises \<^verbatim>\<open>ValueError\<close> on any other token. For a constructed descriptor, after any
  sequence of \<^verbatim>\<open>append_tag\<close> calls and reads of the property, \<^verbatim>\<open>detailed_type\<close> never reaches
  its last branch, "Can't find detailed type"; it raises \<^verbatim>\<open>IndexError\<close> when nothing is
  cached, no reference tag is present and the \<^verbatim>\<open>type\<close> tag was declared without a value,
  and returns a value in every other case.
\<close>

theorem detailed_type_after_init:
  "(bt \<in> {''A'', ''N''} \<longrightarrow> (\<exists>fd0. FieldDescriptor_init td i bt nm = Inr fd0)) \<and>
   (bt \<notin> {''A'', ''N''} \<longrightarrow>
      FieldDescriptor_init td i bt nm
        = Inl (ValueError (''Unknown field type: '' @ [apostrophe] @ bt @ [apostrophe] @ ''.''))) \<and>
   (FieldDescriptor_init td i bt nm = Inr fd0 \<and> fd = foldl apply_op fd0 ops \<longrightarrow>
      fst (detailed_type fd) \<noteq> Inl (ValueError ''Can't find detailed type.'') \<and>
      (detailed_type_cache fd = None \<and> map_of (tags fd) ''type'' = Some [] \<and>
       \<not> has_key (tags fd) ''reference'' \<and> \<not> has_key (tags fd) ''reference-class-name'' \<longrightarrow>
         fst (detailed_type fd) = Inl IndexError) \<and>
      (\<not> (detailed_type_cache fd = None \<and> map_of (tags fd) ''type'' = Some [] \<and>
       \<not> has_key (tags fd) ''reference'' \<and> \<not> has_key (tags fd) ''reference-class-name'') \<longrightarrow>
         (\<exists>dt. fst (detailed_type fd) = Inr dt)))"
proof (intro conjI impI)
  show "\<exists>fd0. FieldDescriptor_init td i bt nm = Inr fd0" if "bt \<in> {''A'', ''N''}"
    using that by (auto simp: FieldDescriptor_init_def)
  show "FieldDescriptor_init td i bt nm
        = Inl (ValueError (''Unknown field type: '' @ [apostrophe] @ bt @ [apostrophe] @ ''.''))"
    if "bt \<notin> {''A'', ''N''}"
    using that by (simp add: FieldDescriptor_init_def)
next
  assume h: "FieldDescriptor_init td i bt nm = Inr fd0 \<and> fd = foldl apply_op fd0 ops"
  then have bt: "basic_type fd = ''A'' \<or> basic_type fd = ''N''"
    using init_fresh [OF conjunct1 [OF h]] conjunct2 [OF h]
    by (simp add: apply_ops_basic_type)
  note c = detailed_type_cases [OF bt]
  show "fst (detailed_type fd) \<noteq> Inl (ValueError ''Can't find detailed type.'')"
    using c by (cases "detailed_type_cache fd = None \<and> map_of (tags fd) ''type'' = Some [] \<and>
          \<not> has_key (tags fd) ''reference'' \<and> \<not> has_key (tags fd) ''reference-class-name''") auto
  show "fst (detailed_type fd) = Inl IndexError"
    if "detailed_type_cache fd = None \<and> map_of (tags fd) ''type'' = Some [] \<and>
       \<not> has_key (tags fd) ''reference'' \<and> \<not> has_key (tags fd) ''reference-class-name''"
    using c that by blast
  show "\<exists>dt. fst (detailed_type fd) = Inr dt"
    if "\<not> (detailed_type_cache fd = None \<and> map_of (tags fd) ''type'' = Some [] \<and>
       \<not> has_key (tags fd) ''reference'' \<and> \<not> has_key (tags fd) ''reference-class-name'')"
    using c that by blast
qed

text \<open>
  The theorem of C10 at concrete descriptors, each hypothesis discharged: the constructor at
  \<^verbatim>\<open>N\<close> and at \<^verbatim>\<open>X\<close>; a numeric field with the tag \<^verbatim>\<open>type\<close> of value \<^verbatim>\<open>Integer\<close>, read twice;
  and a numeric field whose tag \<^verbatim>\<open>type\<close> has no value.
\<close>

theorem detailed_type_after_init_witness:
  "''N'' \<in> {''A'', ''N''} \<and>
   (\<exists>fd0. FieldDescriptor_init ''Zone'' 0 ''N'' (Some ''Name'') = Inr fd0) \<and>
   ''X'' \<notin> {''A'', ''N''} \<and>
   FieldDescriptor_init ''Zone'' 0 ''X'' (Some ''Name'')
     = Inl (ValueError (''Unknown field type: '' @ [apostrophe] @ ''X'' @ [apostrophe] @ ''.'')) \<and>
   FieldDescriptor_init ''Zone'' 0 ''N'' (Some ''Name'') = Inr (example_fd ''N'' []) \<and>
   foldl apply_op (example_fd ''N'' []) [AppendTag ''type'' (Some ''Integer''), ReadDetailedType]
     = (example_fd ''N'' [(''type'', [''Integer''])])\<lparr>detailed_type_cache := Some ''integer''\<rparr> \<and>
   fst (detailed_type ((example_fd ''N'' [(''type'', [''Integer''])])\<lparr>detailed_type_cache := Some ''integer''\<rparr>))
     \<noteq> Inl (ValueError ''Can't find detailed type.'') \<and>
   (\<exists>dt. fst (detailed_type ((example_fd ''N'' [(''type'', [''Integer''])])\<lparr>detailed_type_cache := Some ''integer''\<rparr>))
      = Inr dt) \<and>
   foldl apply_op (example_fd ''N'' []) [AppendTag ''type'' None] = example_fd ''N'' [(''type'', [])] \<and>
   detailed_type_cache (example_fd ''N'' [(''type'', [])]) = None \<and>
   map_of (tags (example_fd ''N'' [(''type'', [])])) ''type'' = Some [] \<and>
   \<not> has_key (tags (example_fd ''N'' [(''type'', [])])) ''reference'' \<and>
   \<not> has_key (tags (example_fd ''N'' [(''type'', [])])) ''reference-class-name'' \<and>
   fst (detailed_type (example_fd ''N'' [(''type'', [])])) = Inl IndexError"
proof -
  let ?fd = "(example_fd ''N'' [(''type'', [''Integer''])])\<lparr>detailed_type_cache := Some ''integer''\<rparr>"
  let ?fe = "example_fd ''N'' [(''type'', [])]"
  let ?ops = "[AppendTag ''type'' (Some ''Integer''), ReadDetailedType]"
  have a: "''N'' \<in> {''A'', ''N''}" "''X'' \<notin> {''A'', ''N''}" by simp_all
  have h1: "FieldDescriptor_init ''Zone'' 0 ''N'' (Some ''Name'') = Inr (example_fd ''N'' [])"
    by code_simp
  have h2: "foldl apply_op (example_fd ''N'' []) ?ops = ?fd" by code_simp
  have h3: "detailed_type_cache ?fd \<noteq> None" by simp
  have h4: "foldl apply_op (example_fd ''N'' []) [AppendTag ''type'' None] = ?fe" by code_simp
  have h5: "detailed_type_cache ?fe = None" "map_of (tags ?fe) ''type'' = Some []"
    "\<not> has_key (tags ?fe) ''reference''" "\<not> has_key (tags ?fe) ''reference-class-name''"
    by code_simp+
  note t1 = detailed_type_after_init [of "''N''" "''Zone''" 0 "Some ''Name''" "example_fd ''N'' []"
      ?fd ?ops]
  note t2 = detailed_type_after_init [of "''X''" "''Zone''" 0 "Some ''Name''" "example_fd ''N'' []"
      ?fd ?ops]
  note t3 = detailed_type_after_init [of "''N''" "''Zone''" 0 "Some ''Name''" "example_fd ''N'' []"
      ?fe "[AppendTag ''type'' None]"]
  from t1 a have c1: "\<exists>fd0. FieldDescriptor_init ''Zone'' 0 ''N'' (Some ''Name'') = Inr fd0" by blast
  from t2 a have c2: "FieldDescriptor_init ''Zone'' 0 ''X'' (Some ''Name'')
      = Inl (ValueError (''Unknown field type: '' @ [apostrophe] @ ''X'' @ [apostrophe] @ ''.''))" by blast
  from t1 h1 h2 [symmetric] h3 have c3: "fst (detailed_type ?fd) \<noteq> Inl (ValueError ''Can't find detailed type.'')"
    "\<exists>dt. fst (detailed_type ?fd) = Inr dt" by blast+
  from t3 h1 h4 [symmetric] h5 have c4: "fst (detailed_type ?fe) = Inl IndexError" by blast
  from a h1 h2 h4 h5 c1 c2 c3 c4 show ?thesis by blast
qed

text \<open>
  Claim C10 as stated says that \<^verbatim>\<open>detailed_type\<close> always returns a value for a constructed
  descriptor: with a \<^verbatim>\<open>type\<close> tag that has no value it raises \<^verbatim>\<open>IndexError\<close>.
\<close>

theorem detailed_type_index_error_counterexample:
  "FieldDescriptor_init ''Zone'' 0 ''A'' (Some ''Name'') = Inr (example_fd ''A'' []) \<and>
   fst (detailed_type (append_tag (example_fd ''A'' []) ''type'' None)) = Inl IndexError"
  by code_simp

section \<open>Properties of the string operations\<close>

lemma sq_one:
  "re_sub_runs (Suc 0) P r (c # cs) =
     (if P c then r @ re_sub_runs (Suc 0) P r (dropWhile P cs) else c # re_sub_runs (Suc 0) P r cs)"
  by simp

lemma dropWhile_Nil_or_hd: "dropWhile P t = [] \<or> \<not> P (hd (dropWhile P t))"
  using hd_dropWhile [of P t] by blast

lemma str_strip_Nil_iff: "(str_strip t = []) = (\<forall>c\<in>set t. is_space c)"
proof (cases "dropWhile is_space t")
  case Nil
  then have "\<forall>c\<in>set t. is_space c" by (simp add: dropWhile_eq_Nil_conv)
  moreover have "str_strip t = []" unfolding str_strip_def Nil by simp
  ultimately show ?thesis by simp
next
  case (Cons x xs)
  then have "\<not> is_space x" using hd_dropWhile [of is_space t] by auto
  moreover have "x \<in> set t" using Cons set_dropWhileD [of x is_space t] by simp
  ultimately show ?thesis using Cons
    by (auto simp: str_strip_def dropWhile_eq_Nil_conv)
qed

lemma sq_Nil_iff: "r \<noteq> [] \<Longrightarrow> (re_sub_runs (Suc 0) P r t = []) = (t = [])"
  by (cases t) simp_all

lemma collapse_spaces_Nil_iff: "(collapse_spaces s = []) = (\<forall>c\<in>set s. is_space c)"
  by (simp add: collapse_spaces_def sq_Nil_iff str_strip_Nil_iff)

lemma in_dropWhile: "x \<in> set cs \<Longrightarrow> \<not> P x \<Longrightarrow> x \<in> set (dropWhile P cs)"
  by (induction cs) auto

lemma sq_keeps:
  "length s \<le> n \<Longrightarrow> x \<in> set s \<Longrightarrow> \<not> P x \<Longrightarrow> x \<in> set (re_sub_runs (Suc 0) P r s)"
proof (induction n arbitrary: s)
  case 0
  then show ?case by simp
next
  case (Suc n)
  show ?case
  proof (cases s)
    case Nil
    then show ?thesis using Suc.prems by simp
  next
    case (Cons c cs)
    have len: "length cs \<le> n" using Suc.prems Cons by simp
    have len': "length (dropWhile P cs) \<le> n"
      using len length_dropWhile_le [of P cs] by simp
    show ?thesis
    proof (cases "P c")
      case True
      then have "x \<in> set cs" using Suc.prems Cons by auto
      then have "x \<in> set (dropWhile P cs)" using Suc.prems(3) by (rule in_dropWhile)
      then show ?thesis using Suc.IH [OF len' _ Suc.prems(3)] True Cons by simp
    next
      case False
      then show ?thesis using Suc.IH [OF len _ Suc.prems(3)] Suc.prems(2) Cons by auto
    qed
  qed
qed

lemma sq_subset:
  "length s \<le> n \<Longrightarrow> set (re_sub_runs (Suc 0) P r s) \<subseteq> set s \<union> set r"
proof (induction n arbitrary: s)
  case 0
  then show ?case by simp
next
  case (Suc n)
  show ?case
  proof (cases s)
    case Nil
    then show ?thesis by simp
  next
    case (Cons c cs)
    have len: "length cs \<le> n" using Suc.prems Cons by simp
    have len': "length (dropWhile P cs) \<le> n"
      using len length_dropWhile_le [of P cs] by simp
    have "set (dropWhile P cs) \<subseteq> set cs" by (rule set_dropWhileD [THEN subsetI]) 
    then show ?thesis using Cons Suc.IH [OF len] Suc.IH [OF len'] by auto
  qed
qed

lemma whitespace_normalize_spec_Nil_iff:
  "(whitespace_normalize_spec s = []) = (\<forall>c\<in>set s. is_space c)"
proof
  assume "whitespace_normalize_spec s = []"
  then have a: "\<forall>c\<in>set (re_sub_runs (Suc 0) is_space '' '' s). is_space c"
    by (simp add: whitespace_normalize_spec_def str_strip_Nil_iff)
  show "\<forall>c\<in>set s. is_space c"
  proof (rule ccontr)
    assume "\<not> (\<forall>c\<in>set s. is_space c)"
    then obtain x where "x \<in> set s" "\<not> is_space x" by blast
    then have "x \<in> set (re_sub_runs (Suc 0) is_space '' '' s)"
      using sq_keeps [of s "length s" x is_space] by simp
    then show False using a \<open>\<not> is_space x\<close> by blast
  qed
next
  assume b: "\<forall>c\<in>set s. is_space c"
  have "is_space (CHR '' '')" by (simp add: is_space_def ord_def)
  then have "\<forall>c\<in>set (re_sub_runs (Suc 0) is_space '' '' s). is_space c"
    using sq_subset [of s "length s" is_space "'' ''"] b by auto
  then show "whitespace_normalize_spec s = []"
    by (simp add: whitespace_normalize_spec_def str_strip_Nil_iff)
qed

section \<open>Properties of deserialization\<close>

lemma deserialize_PStr:
  "deserialize tbl fl fd (PStr s) =
     (if collapse_spaces s = [] then (Inr PNone, fd)
      else if 100 \<le> length (normalize tbl fd s) then
        (Inl (FieldValidationError MoreThan100Characters
           (get_error_location_message fd (Some (PStr (normalize tbl fd s))))), fd)
      else deserialize_by_type fl fd (PStr (normalize tbl fd s)))"
  by (simp add: deserialize_def)

text \<open>
  Claim C4. For every field descriptor, \<^verbatim>\<open>deserialize\<close> of \<^verbatim>\<open>None\<close> returns \<^verbatim>\<open>None\<close>, and so
  does \<^verbatim>\<open>deserialize\<close> of a text that is empty after the whitespace normalisation of the
  specification; the descriptor is left as it was.
\<close>

theorem deserialize_null:
  "deserialize tbl fl fd PNone = (Inr PNone, fd) \<and>
   (whitespace_normalize_spec s = [] \<longrightarrow> deserialize tbl fl fd (PStr s) = (Inr PNone, fd))"
  by (simp add: deserialize_PStr collapse_spaces_Nil_iff whitespace_normalize_spec_Nil_iff)
    (simp add: deserialize_def)

text \<open>The theorem of C4 at a text of a space, a tab and a newline.\<close>

theorem deserialize_null_witness:
  "whitespace_normalize_spec [CHR '' '', CHR 0x09, CHR 0x0A] = [] \<and>
   deserialize example_table example_float_ops (example_fd ''N'' [])
     (PStr [CHR '' '', CHR 0x09, CHR 0x0A]) = (Inr PNone, example_fd ''N'' []) \<and>
   deserialize example_table example_float_ops (example_fd ''N'' []) PNone
     = (Inr PNone, example_fd ''N'' [])"
proof -
  have h: "whitespace_normalize_spec [CHR '' '', CHR 0x09, CHR 0x0A] = []" by code_simp
  with deserialize_null [of example_table example_float_ops "example_fd ''N'' []"
      "[CHR '' '', CHR 0x09, CHR 0x0A]"]
  show ?thesis by blast
qed

lemma deserialize_by_type_not_too_long:
  "fst (deserialize_by_type fl fd v) \<noteq> Inl (FieldValidationError MoreThan100Characters loc)"
proof (cases "detailed_type fd")
  case (Pair a fd1)
  show ?thesis
  proof (cases a)
    case (Inl e)
    then show ?thesis using Pair by (simp add: deserialize_by_type_def)
  next
    case (Inr dt)
    have 1: "\<And>x y. fst (case py_int fl v of
                 Some n \<Rightarrow> (Inr (PInt n), fd1)
               | None \<Rightarrow> (Inl (FieldValidationError CouldntParseToInteger x), fd1))
           \<noteq> Inl (FieldValidationError MoreThan100Characters loc)"
      by (simp split: option.splits)
    have 2: "\<And>x y. fst (case py_float fl v of
                 Some n \<Rightarrow> (Inr (PFloat n), fd1)
               | None \<Rightarrow> (Inl (FieldValidationError CouldntParseToFloat x), fd1))
           \<noteq> Inl (FieldValidationError MoreThan100Characters loc)"
      by (simp split: option.splits)
    have 3: "\<And>x. fst (case v of
               PStr s \<Rightarrow> (Inr v, fd1)
             | _ \<Rightarrow> (Inl (FieldValidationError ValueMustBeAString x), fd1))
           \<noteq> Inl (FieldValidationError MoreThan100Characters loc)"
      by (simp split: pyvalue.splits)
    have 4: "fst (case map_of (tags fd1) ''object-list'' of
               None \<Rightarrow> (Inl (Builtin (KeyError ''object-list'')), fd1)
             | Some [] \<Rightarrow> (Inl (Builtin IndexError), fd1)
             | Some (reference # rs) \<Rightarrow> (Inr (PLink reference v), fd1))
           \<noteq> Inl (FieldValidationError MoreThan100Characters loc)"
      by (simp split: option.splits list.splits)
    have ifI: "\<And>c a b. fst a \<noteq> Inl (FieldValidationError MoreThan100Characters loc) \<Longrightarrow>
        fst b \<noteq> Inl (FieldValidationError MoreThan100Characters loc) \<Longrightarrow>
        fst (if c then a else b) \<noteq> Inl (FieldValidationError MoreThan100Characters loc)"
      for a b :: "('a pyvalue raised + 'a pyvalue) \<times> FieldDescriptor"
      by simp
    show ?thesis
      unfolding deserialize_by_type_def Pair Inr prod.case sum.case
      by (intro ifI 1 2 3 4) simp_all
  qed
qed

lemma normalize_Nil: "collapse_spaces s = [] \<Longrightarrow> normalize tbl fd s = []"
  by (simp add: normalize_def ascii_case_def unidecode_def str_lower_def)

lemma deserialize_by_type_alpha:
  "fst (detailed_type fd) = Inr ''alpha'' \<Longrightarrow>
   deserialize_by_type fl fd (PStr t) = (Inr (PStr t), snd (detailed_type fd))"
  by (cases "detailed_type fd") (simp add: deserialize_by_type_def)

lemma deserialize_length_error_iff:
  "(\<exists>loc. fst (deserialize tbl fl fd (PStr s)) = Inl (FieldValidationError MoreThan100Characters loc))
     = (100 \<le> length (normalize tbl fd s))"
proof (cases "100 \<le> length (normalize tbl fd s)")
  case True
  moreover from True have "collapse_spaces s \<noteq> []" using normalize_Nil [of s tbl fd] by auto
  ultimately have "fst (deserialize tbl fl fd (PStr s))
      = Inl (FieldValidationError MoreThan100Characters
           (get_error_location_message fd (Some (PStr (normalize tbl fd s)))))"
    by (simp add: deserialize_PStr)
  then show ?thesis using True by blast
next
  case False
  then show ?thesis by (simp add: deserialize_PStr deserialize_by_type_not_too_long)
qed

text \<open>
  Claim C6, as the code has it. For every field descriptor, whatever its detailed type, a
  text whose normalized form has 100 characters or more raises the validation error of the
  length limit, and that error is raised for no other text; for a field of detailed type
  \<^verbatim>\<open>alpha\<close> a text with a non-empty normalized form of fewer than 100 characters (99 in
  particular) deserializes to its normalized form. (The other validation errors are raised
  for shorter texts.)
\<close>

theorem deserialize_length_limit:
  "(100 \<le> length (normalize tbl fd s) \<longrightarrow>
      deserialize tbl fl fd (PStr s) =
        (Inl (FieldValidationError MoreThan100Characters
           (get_error_location_message fd (Some (PStr (normalize tbl fd s))))), fd)) \<and>
   ((\<exists>loc. fst (deserialize tbl fl fd (PStr s)) = Inl (FieldValidationError MoreThan100Characters loc))
      = (100 \<le> length (normalize tbl fd s))) \<and>
   (fst (detailed_type fd) = Inr ''alpha'' \<and> collapse_spaces s \<noteq> [] \<and>
    length (normalize tbl fd s) < 100 \<longrightarrow>
      deserialize tbl fl fd (PStr s) = (Inr (PStr (normalize tbl fd s)), snd (detailed_type fd)))"
proof (intro conjI impI)
  assume "100 \<le> length (normalize tbl fd s)"
  moreover from this have "collapse_spaces s \<noteq> []" using normalize_Nil [of s tbl fd] by auto
  ultimately show "deserialize tbl fl fd (PStr s) =
        (Inl (FieldValidationError MoreThan100Characters
           (get_error_location_message fd (Some (PStr (normalize tbl fd s))))), fd)"
    by (simp add: deserialize_PStr)
next
  show "(\<exists>loc. fst (deserialize tbl fl fd (PStr s)) = Inl (FieldValidationError MoreThan100Characters loc))
      = (100 \<le> length (normalize tbl fd s))"
    by (rule deserialize_length_error_iff)
next
  assume "fst (detailed_type fd) = Inr ''alpha'' \<and> collapse_spaces s \<noteq> [] \<and>
    length (normalize tbl fd s) < 100"
  then show "deserialize tbl fl fd (PStr s) = (Inr (PStr (normalize tbl fd s)), snd (detailed_type fd))"
    by (simp add: deserialize_PStr deserialize_by_type_alpha)
qed

text \<open>
  The theorem of C6 at texts of 100 and of 99 characters, for an alpha field and for an
  integer field.
\<close>

theorem deserialize_length_limit_witness:
  "100 \<le> length (normalize example_table (example_fd ''A'' []) (replicate 100 (CHR ''a''))) \<and>
   deserialize example_table example_float_ops (example_fd ''A'' []) (PStr (replicate 100 (CHR ''a'')))
     = (Inl (FieldValidationError MoreThan100Characters
          (get_error_location_message (example_fd ''A'' [])
             (Some (PStr (normalize example_table (example_fd ''A'' []) (replicate 100 (CHR ''a''))))))),
        example_fd ''A'' []) \<and>
   100 \<le> length (normalize example_table (example_fd ''N'' [(''type'', [''integer''])])
                  (replicate 100 (CHR ''1''))) \<and>
   deserialize example_table example_float_ops (example_fd ''N'' [(''type'', [''integer''])])
       (PStr (replicate 100 (CHR ''1'')))
     = (Inl (FieldValidationError MoreThan100Characters
          (get_error_location_message (example_fd ''N'' [(''type'', [''integer''])])
             (Some (PStr (normalize example_table (example_fd ''N'' [(''type'', [''integer''])])
                (replicate 100 (CHR ''1''))))))),
        example_fd ''N'' [(''type'', [''integer''])]) \<and>
   fst (detailed_type (example_fd ''A'' [])) = Inr ''alpha'' \<and>
   collapse_spaces (replicate 99 (CHR ''a'')) \<noteq> [] \<and>
   normalize example_table (example_fd ''A'' []) (replicate 99 (CHR ''a'')) = replicate 99 (CHR ''a'') \<and>
   deserialize example_table example_float_ops (example_fd ''A'' []) (PStr (replicate 99 (CHR ''a'')))
     = (Inr (PStr (replicate 99 (CHR ''a''))), snd (detailed_type (example_fd ''A'' [])))"
proof -
  let ?fd = "example_fd ''A'' []"
  let ?fi = "example_fd ''N'' [(''type'', [''integer''])]"
  have h1: "100 \<le> length (normalize example_table ?fd (replicate 100 (CHR ''a'')))" by code_simp
  have h1': "100 \<le> length (normalize example_table ?fi (replicate 100 (CHR ''1'')))" by code_simp
  have h2: "fst (detailed_type ?fd) = Inr ''alpha''" by code_simp
  have h3: "collapse_spaces (replicate 99 (CHR ''a'')) \<noteq> []" by code_simp
  have h4: "normalize example_table ?fd (replicate 99 (CHR ''a'')) = replicate 99 (CHR ''a'')" by code_simp
  then have h5: "length (normalize example_table ?fd (replicate 99 (CHR ''a''))) < 100" by simp
  note t1 = deserialize_length_limit [of example_table ?fd "replicate 100 (CHR ''a'')" example_float_ops]
  note t2 = deserialize_length_limit [of example_table ?fd "replicate 99 (CHR ''a'')" example_float_ops]
  note t3 = deserialize_length_limit [of example_table ?fi "replicate 100 (CHR ''1'')" example_float_ops]
  from t1 h1 have c1: "deserialize example_table example_float_ops ?fd (PStr (replicate 100 (CHR ''a'')))
     = (Inl (FieldValidationError MoreThan100Characters
          (get_error_location_message ?fd
             (Some (PStr (normalize example_table ?fd (replicate 100 (CHR ''a''))))))), ?fd)"
    by blast
  from t3 h1' have c2: "deserialize example_table example_float_ops ?fi (PStr (replicate 100 (CHR ''1'')))
     = (Inl (FieldValidationError MoreThan100Characters
          (get_error_location_message ?fi
             (Some (PStr (normalize example_table ?fi (replicate 100 (CHR ''1''))))))), ?fi)"
    by blast
  from t2 h2 h3 h5 have "deserialize example_table example_float_ops ?fd (PStr (replicate 99 (CHR ''a'')))
     = (Inr (PStr (normalize example_table ?fd (replicate 99 (CHR ''a'')))), snd (detailed_type ?fd))"
    by blast
  then have c3: "deserialize example_table example_float_ops ?fd (PStr (replicate 99 (CHR ''a'')))
     = (Inr (PStr (replicate 99 (CHR ''a''))), snd (detailed_type ?fd))"
    unfolding h4 .
  from h1 h1' h2 h3 h4 c1 c2 c3 show ?thesis by blast
qed

text \<open>
  Claim C6 as stated says that a field validation error is raised exactly when the
  normalized text reaches 100 characters: for an integer field the text \<^verbatim>\<open>abc\<close>, of 3
  characters, raises the field validation error "Couldn't parse to integer".
\<close>

theorem deserialize_short_text_error_counterexample:
  "fst (detailed_type (example_fd ''N'' [(''type'', [''integer''])])) = Inr ''integer'' \<and>
   normalize example_table (example_fd ''N'' [(''type'', [''integer''])]) ''abc'' = ''abc'' \<and>
   fst (deserialize example_table example_float_ops (example_fd ''N'' [(''type'', [''integer''])])
          (PStr ''abc''))
     = Inl (FieldValidationError CouldntParseToInteger (''Zone'', 0, Some ''name'', Some (PStr ''abc'')))"
  by code_simp

section \<open>Integers as text\<close>


































lemma deserialize_by_type_object_list:
  assumes "fst (detailed_type fd) = Inr ''object-list''"
  shows "deserialize_by_type fl fd v =
     (case map_of (tags fd) ''object-list'' of
        None \<Rightarrow> (Inl (Builtin (KeyError ''object-list'')), snd (detailed_type fd))
      | Some [] \<Rightarrow> (Inl (Builtin IndexError), snd (detailed_type fd))
      | Some (reference # rs) \<Rightarrow> (Inr (PLink reference v), snd (detailed_type fd)))"
proof -
  obtain fd1 where eq: "detailed_type fd = (Inr ''object-list'', fd1)"
    using assms(1) by (cases "detailed_type fd") simp
  then have sn: "snd (detailed_type fd) = fd1" by simp
  have tg: "tags fd = tags fd1"
    using detailed_type_frame(1) [of fd] unfolding sn by simp
  have n1: "''object-list'' \<notin> set [''integer'', ''real'']"
    and n2: "''object-list'' \<notin> set [''alpha'', ''choice'', ''node'', ''external-list'']"
    and n3: "''object-list'' \<noteq> ''reference''"
    by simp_all
  show ?thesis
    unfolding sn tg
    unfolding deserialize_by_type_def eq prod.case sum.case if_not_P [OF n1] if_not_P [OF n2]
      if_not_P [OF n3] if_P [OF refl] ..
qed

text \<open>
  Claim C9, as the code has it. For a field of detailed type \<^verbatim>\<open>object-list\<close> whose
  \<^verbatim>\<open>object-list\<close> tag has at least one value, a text with a non-empty normalized form of
  fewer than 100 characters deserializes to the link built from the first value of the tag
  and the normalized text; the further values of the tag play no part.
\<close>

theorem deserialize_object_list:
  "fst (detailed_type fd) = Inr ''object-list'' \<and>
   map_of (tags fd) ''object-list'' = Some (r # rs) \<and>
   collapse_spaces s \<noteq> [] \<and> length (normalize tbl fd s) < 100 \<longrightarrow>
   deserialize tbl fl fd (PStr s)
     = (Inr (PLink r (PStr (normalize tbl fd s))), snd (detailed_type fd))"
  by (simp add: deserialize_PStr deserialize_by_type_object_list)

text \<open>The theorem of C9 at a field whose \<^verbatim>\<open>object-list\<close> tag has two values.\<close>

theorem deserialize_object_list_witness:
  "fst (detailed_type (example_fd ''A'' [(''object-list'', [''ZoneNames'', ''Other''])])) = Inr ''object-list'' \<and>
   map_of (tags (example_fd ''A'' [(''object-list'', [''ZoneNames'', ''Other''])])) ''object-list''
     = Some (''ZoneNames'' # [''Other'']) \<and>
   collapse_spaces '' My   Zone'' \<noteq> [] \<and>
   normalize example_table (example_fd ''A'' [(''object-list'', [''ZoneNames'', ''Other''])]) '' My   Zone''
     = ''my zone'' \<and>
   deserialize example_table example_float_ops
       (example_fd ''A'' [(''object-list'', [''ZoneNames'', ''Other''])]) (PStr '' My   Zone'')
     = (Inr (PLink ''ZoneNames'' (PStr ''my zone'')),
        snd (detailed_type (example_fd ''A'' [(''object-list'', [''ZoneNames'', ''Other''])])))"
proof -
  let ?fd = "example_fd ''A'' [(''object-list'', [''ZoneNames'', ''Other''])]"
  have h1: "fst (detailed_type ?fd) = Inr ''object-list''" by code_simp
  have h2: "map_of (tags ?fd) ''object-list'' = Some (''ZoneNames'' # [''Other''])" by code_simp
  have h3: "collapse_spaces '' My   Zone'' \<noteq> []" by code_simp
  have h4: "normalize example_table ?fd '' My   Zone'' = ''my zone''" by code_simp
  then have h5: "length (normalize example_table ?fd '' My   Zone'') < 100" by simp
  from deserialize_object_list [of ?fd "''ZoneNames''" "[''Other'']" "'' My   Zone''" example_table
      example_float_ops] h1 h2 h3 h5
  have "deserialize example_table example_float_ops ?fd (PStr '' My   Zone'')
     = (Inr (PLink ''ZoneNames'' (PStr (normalize example_table ?fd '' My   Zone''))),
        snd (detailed_type ?fd))" by blast
  with h1 h2 h3 h4 show ?thesis by simp
qed

text \<open>
  Claim C9 as stated covers every text that is not null: a text of spaces deserializes to
  \<^verbatim>\<open>None\<close>, not to a link.
\<close>

theorem deserialize_object_list_blank_counterexample:
  "fst (detailed_type (example_fd ''A'' [(''object-list'', [''ZoneNames''])])) = Inr ''object-list'' \<and>
   deserialize example_table example_float_ops (example_fd ''A'' [(''object-list'', [''ZoneNames''])])
     (PStr ''  '') = (Inr PNone, example_fd ''A'' [(''object-list'', [''ZoneNames''])])"
  by code_simp


end
